theory Spec2Isabelle
  imports Complex_Main "HOL-Library.Sublist"
begin

section \<open>SelectKBest: the data model\<close>

text \<open>
  The development follows \<^verbatim>\<open>preprocessy/feature_selection/_selectKBest.py\<close>.
  A pandas DataFrame is a number of rows and an ordered list of labelled columns; a
  Series is a list of cells; a numpy array of scores is a list of reals (the scores are
  taken from a linear order: a NaN score is outside this model). A cell that pandas
  treats as missing is \<open>NA\<close>.
\<close>

datatype cell = Num real | Str string | NA

record dataframe =
  nrows :: nat
  columns :: "(string \<times> cell list) list"

type_synonym series = "cell list"

type_synonym ndarray = "real list"

text \<open>The Python values that reach the parameters \<open>X\<close> and \<open>y\<close>.\<close>

datatype pyobj =
    is_DataFrame: DataFrame dataframe
  | is_Series: Series series
  | PyList "cell list list"

text \<open>
  Exceptions are values. \<open>AttributeError t a\<close> is the interpreter's error for reading the
  attribute \<open>a\<close> of an object of type \<open>t\<close>; the other constructors carry the message.
\<close>

datatype error =
    TypeError string
  | ValueError string
  | AttributeError string string
  | IndexError string
  | ScorerError string

text \<open>
  A scoring function returns "a pair of arrays (scores, pvalues) or a single array with
  scores" (the constructor's docstring), or raises.
\<close>

datatype score_func_ret = Scores ndarray | ScoresPvalues ndarray ndarray

type_synonym scorer = "dataframe \<Rightarrow> series \<Rightarrow> error + score_func_ret"

text \<open>
  The attribute \<open>score_func\<close> is \<open>None\<close>, a callable, or some other object, of which the
  code reads only its \<open>str\<close> and its \<open>type\<close> (for the error message).
\<close>

datatype sfunc = Unset | Callable scorer | NotCallable string string

record selector =
  k :: int
  score_func :: sfunc
  scores :: "ndarray option"
  pvalues :: "ndarray option"

definition init :: "sfunc \<Rightarrow> int \<Rightarrow> selector" where
  "init sf kk = \<lparr>k = kk, score_func = sf, scores = None, pvalues = None\<rparr>"

text \<open>
  A call that mutates the selector yields its result (or the exception raised), the
  selector as the call leaves it, and the invocations of the scoring function it made.
\<close>

record 'a outcome =
  res :: "error + 'a"
  obj :: selector
  calls :: "(dataframe \<times> series) list"

section \<open>The messages of the source\<close>

definition not_fitted_msg :: string where
  "not_fitted_msg = ''self.scores is None. Please fit the estimator before calling transform.''"

definition no_features_msg :: string where
  "no_features_msg =
     ''No features were selected: either the data is too noisy or the selection test too strict.''"

definition shape_msg :: string where
  "shape_msg = ''X has a different shape than during fitting.''"

definition dataframe_msg :: string where
  "dataframe_msg = ''Feature dataframe is not a valid dataframe.'' @ [CHR 0x0A] @
     ''Expected object type: '' @ ''pandas.core.frame.DataFrame''"

definition series_msg :: string where
  "series_msg = ''Target column is not a valid series.'' @ [CHR 0x0A] @
     ''Expected object type: '' @ ''pandas.core.series.Series''"

definition not_callable_msg :: "string \<Rightarrow> string \<Rightarrow> string" where
  "not_callable_msg v t =
     ''The score function should be a callable, '' @ v @ '' of type ('' @ t @ '') was passed.''"

section \<open>Library operations the source calls\<close>

text \<open>\<open>Series.nunique()\<close>: the number of distinct cells, missing ones left out.\<close>

definition nunique :: "series \<Rightarrow> nat" where
  "nunique y = length (remdups (filter (\<lambda>c. c \<noteq> NA) y))"

text \<open>\<open>np.argsort(a, kind="stable")\<close>: the indices of \<open>a\<close>, stably sorted by their entry.\<close>

definition argsort :: "ndarray \<Rightarrow> nat list" where
  "argsort a = sort_key (\<lambda>i. a ! i) [0..<length a]"

text \<open>
  The slice \<open>xs[start:]\<close>: a negative start counts from the end and is clipped at the
  front, a start beyond the end gives the empty list.
\<close>

definition slice_from :: "int \<Rightarrow> 'a list \<Rightarrow> 'a list" where
  "slice_from start xs =
     (let n = int (length xs)
      in if start < 0 then drop (nat (max (n + start) 0)) xs else drop (nat start) xs)"

text \<open>\<open>np.zeros(shape, dtype=bool)\<close> for a one-dimensional shape.\<close>

definition zeros :: "nat \<Rightarrow> bool list" where
  "zeros n = replicate n False"

text \<open>\<open>mask[idx] = 1\<close> for an index array: an index out of bounds raises.\<close>

fun put_true :: "nat list \<Rightarrow> bool list \<Rightarrow> error + bool list" where
  "put_true [] msk = Inr msk"
| "put_true (i # idx) msk =
     (if i < length msk then put_true idx (msk[i := True])
      else Inl (IndexError ''index is out of bounds''))"

text \<open>\<open>mask.any()\<close>.\<close>

definition any :: "bool list \<Rightarrow> bool" where
  "any msk = list_ex (\<lambda>b. b) msk"

text \<open>\<open>X.shape[1]\<close>: a Series has a one-element shape, a list has no shape.\<close>

fun shape1 :: "pyobj \<Rightarrow> error + nat" where
  "shape1 (DataFrame d) = Inr (length (columns d))"
| "shape1 (Series s) = Inl (IndexError ''tuple index out of range'')"
| "shape1 (PyList l) = Inl (AttributeError ''list'' ''shape'')"

text \<open>
  \<open>X.iloc[:, mask]\<close> with a boolean mask: the columns at the true positions, every row
  kept; a mask of another length than the columns raises.
\<close>

fun iloc_cols :: "pyobj \<Rightarrow> bool list \<Rightarrow> error + dataframe" where
  "iloc_cols (DataFrame d) msk =
     (if length msk \<noteq> length (columns d) then Inl (IndexError ''Item wrong length'')
      else Inr (d\<lparr>columns := map fst (filter snd (zip (columns d) msk))\<rparr>))"
| "iloc_cols (Series s) msk = Inl (AttributeError ''Series'' ''iloc'')"
| "iloc_cols (PyList l) msk = Inl (AttributeError ''list'' ''iloc'')"

section \<open>The methods of SelectKBest\<close>

definition get_mask :: "selector \<Rightarrow> error + bool list" where
  "get_mask self =
     (if k self = 0 then
        (case scores self of
           None \<Rightarrow> Inl (AttributeError ''NoneType'' ''shape'')
         | Some sc \<Rightarrow> Inr (zeros (length sc)))
      else
        (case scores self of
           None \<Rightarrow> Inl (ValueError not_fitted_msg)
         | Some sc \<Rightarrow> put_true (slice_from (- k self) (argsort sc)) (zeros (length sc))))"

text \<open>
  The end of \<open>fit\<close> (lines 117 to 127): the scoring function is invoked once; what it
  raises goes to the caller, what it returns is stored, and \<open>self\<close> is returned.
\<close>

definition store_scores :: "selector \<Rightarrow> score_func_ret \<Rightarrow> selector" where
  "store_scores self ret =
     (case ret of
        ScoresPvalues sc pv \<Rightarrow> self\<lparr>scores := Some sc, pvalues := Some pv\<rparr>
      | Scores sc \<Rightarrow> self\<lparr>scores := Some sc, pvalues := None\<rparr>)"

definition invoke :: "scorer \<Rightarrow> selector \<Rightarrow> dataframe \<Rightarrow> series \<Rightarrow> selector outcome" where
  "invoke f self Xd ys =
     (case f Xd ys of
        Inl e \<Rightarrow> \<lparr>res = Inl e, obj = self, calls = [(Xd, ys)]\<rparr>
      | Inr ret \<Rightarrow>
          (let self2 = store_scores self ret
           in \<lparr>res = Inr self2, obj = self2, calls = [(Xd, ys)]\<rparr>))"

text \<open>
  \<open>f_classif\<close> and \<open>f_regression\<close> are the two functions the module imports from
  \<open>sklearn.feature_selection\<close>; they are parameters here.
\<close>

definition fit :: "scorer \<Rightarrow> scorer \<Rightarrow> selector \<Rightarrow> pyobj \<Rightarrow> pyobj \<Rightarrow> selector outcome" where
  "fit f_classif f_regression self X y =
     (case X of
        DataFrame Xd \<Rightarrow>
          (case y of
             Series ys \<Rightarrow>
               (let self1 =
                      (case score_func self of
                         Unset \<Rightarrow>
                           (if nunique ys \<le> 15 then self\<lparr>score_func := Callable f_classif\<rparr>
                            else self\<lparr>score_func := Callable f_regression\<rparr>)
                       | _ \<Rightarrow> self)
                in case score_func self1 of
                     Callable f \<Rightarrow> invoke f self1 Xd ys
                   | NotCallable v t \<Rightarrow>
                       \<lparr>res = Inl (TypeError (not_callable_msg v t)), obj = self1, calls = []\<rparr>
                   | Unset \<Rightarrow>
                       \<lparr>res = Inl (TypeError (not_callable_msg ''None'' ''<class 'NoneType'>'')),
                        obj = self1, calls = []\<rparr>)
           | _ \<Rightarrow> \<lparr>res = Inl (TypeError series_msg), obj = self, calls = []\<rparr>)
      | _ \<Rightarrow> \<lparr>res = Inl (TypeError dataframe_msg), obj = self, calls = []\<rparr>)"

definition transform :: "selector \<Rightarrow> pyobj \<Rightarrow> error + dataframe" where
  "transform self X =
     (case get_mask self of
        Inl e \<Rightarrow> Inl e
      | Inr msk \<Rightarrow>
          if \<not> any msk then Inl (ValueError no_features_msg)
          else
            (case shape1 X of
               Inl e \<Rightarrow> Inl e
             | Inr n \<Rightarrow>
                 if length msk \<noteq> n then Inl (ValueError shape_msg)
                 else iloc_cols X msk))"

definition fit_transform ::
  "scorer \<Rightarrow> scorer \<Rightarrow> selector \<Rightarrow> pyobj \<Rightarrow> pyobj \<Rightarrow> dataframe outcome" where
  "fit_transform f_classif f_regression self X y =
     (let fitted = fit f_classif f_regression self X y
      in case res fitted of
           Inl e \<Rightarrow> \<lparr>res = Inl e, obj = obj fitted, calls = calls fitted\<rparr>
         | Inr returned \<Rightarrow>
             \<lparr>res = transform returned X, obj = obj fitted, calls = calls fitted\<rparr>)"

section \<open>The stable ascending ranking, as the specification words it\<close>

text \<open>
  A ranking of the feature indices is ascending and stable when it lists every index
  once, by ascending score, and indices of equal score in their original order.
\<close>

definition ranks_before :: "ndarray \<Rightarrow> nat \<Rightarrow> nat \<Rightarrow> bool" where
  "ranks_before a i j \<longleftrightarrow> a ! i < a ! j \<or> (a ! i = a ! j \<and> i < j)"

definition stable_ascending :: "ndarray \<Rightarrow> nat list \<Rightarrow> bool" where
  "stable_ascending a p \<longleftrightarrow>
     distinct p \<and> set p = set [0..<length a] \<and> sorted_wrt (ranks_before a) p"

text \<open>
  "Equivalent to calling \<open>fit(X, y)\<close> then \<open>transform(X)\<close> on the same \<open>X\<close>", with the
  failure of the first failing operation: \<open>fit\<close> is called on the selector; if it raises,
  that is the outcome; otherwise \<open>transform\<close> is called on the selector as \<open>fit\<close> left it.
\<close>

definition fit_then_transform ::
  "scorer \<Rightarrow> scorer \<Rightarrow> selector \<Rightarrow> pyobj \<Rightarrow> pyobj \<Rightarrow> dataframe outcome" where
  "fit_then_transform f_classif f_regression self X y =
     (let first = fit f_classif f_regression self X y
      in case res first of
           Inl e \<Rightarrow> \<lparr>res = Inl e, obj = obj first, calls = calls first\<rparr>
         | Inr _ \<Rightarrow> \<lparr>res = transform (obj first) X, obj = obj first, calls = calls first\<rparr>)"

section \<open>Example inputs\<close>

definition X4 :: dataframe where
  "X4 = \<lparr>nrows = 2, columns =
     [(''a'', [Num 1, Num 2]), (''b'', [Num 3, NA]), (''c'', [Str ''u'', Str ''v'']), (''d'', [Num 0, Num 0])]\<rparr>"

definition scorer_a :: scorer where
  "scorer_a Xd ys = Inr (ScoresPvalues [5, 3, 5, 1] [1, 2, 3, 4])"

definition scorer_b :: scorer where
  "scorer_b Xd ys = Inr (Scores [1, 2, 3, 4])"

definition y16 :: series where
  "y16 = map Num [0, 1, 2, 3, 4, 5, 6, 7, 8, 9, 10, 11, 12, 13, 14, 15]"

definition X0 :: dataframe where
  "X0 = \<lparr>nrows = 2, columns = []\<rparr>"

definition scorer_empty :: scorer where
  "scorer_empty Xd ys = Inr (Scores [])"

definition Z4 :: dataframe where
  "Z4 = \<lparr>nrows = 1, columns =
     [(''p'', [Str ''x'']), (''q'', [NA]), (''q'', [Num 7]), (''r'', [Num 9])]\<rparr>"

definition Z3 :: dataframe where
  "Z3 = \<lparr>nrows = 1, columns = [(''a'', [Num 1]), (''b'', [Num 3]), (''c'', [Num 0])]\<rparr>"

section \<open>Auxiliary facts\<close>

lemma put_true_in_range:
  "\<forall>i \<in> set idx. i < length msk \<Longrightarrow>
   put_true idx msk = Inr (map (\<lambda>j. msk ! j \<or> j \<in> set idx) [0..<length msk])"
proof (induction idx arbitrary: msk)
  case Nil
  show ?case by (simp add: map_nth)
next
  case (Cons i idx)
  have "put_true (i # idx) msk = put_true idx (msk[i := True])"
    using Cons.prems by simp
  also have "\<dots> = Inr (map (\<lambda>j. (msk[i := True]) ! j \<or> j \<in> set idx) [0..<length msk])"
    using Cons.IH [of "msk[i := True]"] Cons.prems by simp
  also have "map (\<lambda>j. (msk[i := True]) ! j \<or> j \<in> set idx) [0..<length msk]
           = map (\<lambda>j. msk ! j \<or> j \<in> set (i # idx)) [0..<length msk]"
    using Cons.prems by (intro map_cong) (auto simp: nth_list_update)
  finally show ?case .
qed

lemma put_true_zeros:
  "\<forall>i \<in> set idx. i < n \<Longrightarrow> put_true idx (zeros n) = Inr (map (\<lambda>j. j \<in> set idx) [0..<n])"
  using put_true_in_range [of idx "zeros n"] by (simp add: zeros_def cong: map_cong)

lemma set_argsort: "set (argsort a) = {..<length a}"
  by (auto simp: argsort_def)

lemma distinct_argsort: "distinct (argsort a)"
  by (simp add: argsort_def)

lemma length_argsort: "length (argsort a) = length a"
  by (simp add: argsort_def)

lemma slice_from_neg:
  "0 < kk \<Longrightarrow> slice_from (- kk) xs = drop (length xs - nat kk) xs"
  by (simp add: slice_from_def Let_def nat_diff_distrib' max_def) 

lemma set_slice_from: "set (slice_from st xs) \<subseteq> set xs"
  by (auto simp: slice_from_def Let_def dest: in_set_dropD)

lemma distinct_slice_from: "distinct xs \<Longrightarrow> distinct (slice_from st xs)"
  by (simp add: slice_from_def Let_def)

lemma get_mask_fitted:
  "k self \<noteq> 0 \<Longrightarrow> scores self = Some sc \<Longrightarrow>
   get_mask self = Inr (map (\<lambda>j. j \<in> set (slice_from (- k self) (argsort sc))) [0..<length sc])"
  unfolding get_mask_def using set_slice_from [of "- k self" "argsort sc"]
  by (simp add: put_true_zeros set_argsort subset_iff)

lemma count_members:
  "distinct idx \<Longrightarrow> \<forall>i \<in> set idx. i < n \<Longrightarrow>
   length (filter (\<lambda>j. j \<in> set idx) [0..<n]) = length idx"
proof -
  assume d: "distinct idx" and r: "\<forall>i \<in> set idx. i < n"
  have "length (filter (\<lambda>j. j \<in> set idx) [0..<n]) = card (set (filter (\<lambda>j. j \<in> set idx) [0..<n]))"
    by (rule distinct_card [symmetric]) simp
  also have "set (filter (\<lambda>j. j \<in> set idx) [0..<n]) = set idx" using r by auto
  finally show ?thesis using d by (simp add: distinct_card)
qed

lemma iloc_subseq: "subseq (map fst (filter snd (zip cs msk))) cs"
proof (induction cs arbitrary: msk)
  case Nil show ?case by simp
next
  case (Cons c cs)
  show ?case by (cases msk) (auto simp: Cons.IH intro: subseq_Cons')
qed

lemma count_selected:
  "length xs = length ys \<Longrightarrow> length (filter snd (zip xs ys)) = length (filter (\<lambda>b. b) ys)"
  by (induction xs ys rule: list_induct2) auto

lemma iloc_length:
  "length cs = n \<Longrightarrow>
   length (map fst (filter snd (zip cs (map P [0..<n])))) = length (filter P [0..<n])"
  by (simp add: count_selected filter_map o_def)


lemma any_members: "any (map (\<lambda>j. j \<in> S) [0..<n]) \<longleftrightarrow> (\<exists>j < n. j \<in> S)"
  by (auto simp: any_def list_ex_iff)

lemma transform_fitted:
  assumes "scores self = Some sc" and "k self \<noteq> 0"
  shows "transform self (DataFrame d) =
     (let msk = map (\<lambda>j. j \<in> set (slice_from (- k self) (argsort sc))) [0..<length sc]
      in if \<not> any msk then Inl (ValueError no_features_msg)
         else if length sc \<noteq> length (columns d) then Inl (ValueError shape_msg)
         else Inr (d\<lparr>columns := map fst (filter snd (zip (columns d) msk))\<rparr>))"
  using assms by (simp add: transform_def get_mask_fitted Let_def)

lemma insort_ranks:
  fixes f :: "nat \<Rightarrow> real"
  assumes "sorted_wrt (\<lambda>i j. f i < f j \<or> (f i = f j \<and> i < j)) ys" and "\<forall>y \<in> set ys. x < y"
  shows "sorted_wrt (\<lambda>i j. f i < f j \<or> (f i = f j \<and> i < j)) (insort_key f x ys)"
  using assms
proof (induction ys)
  case Nil
  show ?case by simp
next
  case (Cons y ys)
  show ?case
  proof (cases "f x \<le> f y")
    case True
    have "\<forall>z \<in> set (y # ys). f x < f z \<or> (f x = f z \<and> x < z)"
      using True Cons.prems by fastforce
    then show ?thesis using True Cons.prems by simp
  next
    case False
    then show ?thesis using Cons by (auto simp: set_insort_key)
  qed
qed

lemma sort_key_ranks:
  fixes f :: "nat \<Rightarrow> real"
  assumes "sorted_wrt (<) xs"
  shows "sorted_wrt (\<lambda>i j. f i < f j \<or> (f i = f j \<and> i < j)) (sort_key f xs)"
  using assms
proof (induction xs)
  case Nil
  show ?case by simp
next
  case (Cons x xs)
  then show ?case by (simp add: insort_ranks)
qed

lemma argsort_stable_ascending: "stable_ascending a (argsort a)"
  unfolding stable_ascending_def ranks_before_def argsort_def
  using sort_key_ranks [of "[0..<length a]" "\<lambda>i. a ! i"]
  by (simp add: sorted_wrt_upt)

lemma sorted_wrt_unique:
  assumes asym: "\<And>x y. R x y \<Longrightarrow> \<not> R y x"
  shows "sorted_wrt R xs \<Longrightarrow> sorted_wrt R ys \<Longrightarrow> distinct xs \<Longrightarrow> distinct ys \<Longrightarrow>
         set xs = set ys \<Longrightarrow> xs = ys"
proof (induction xs arbitrary: ys)
  case Nil
  then show ?case by simp
next
  case (Cons x xs)
  then obtain y ys' where ys: "ys = y # ys'" by (cases ys) auto
  have "x = y"
  proof (rule ccontr)
    assume ne: "x \<noteq> y"
    then have "x \<in> set ys'" and "y \<in> set xs" using Cons.prems(5) ys by auto
    then have "R y x" and "R x y" using Cons.prems(1,2) ys by auto
    then show False using asym by blast
  qed
  moreover have "set xs = set ys'" using Cons.prems(3,4,5) ys \<open>x = y\<close> by auto
  ultimately show ?case using Cons.IH [of ys'] Cons.prems ys by simp
qed

lemma stable_ascending_unique: "stable_ascending a p \<Longrightarrow> p = argsort a"
proof -
  assume p: "stable_ascending a p"
  have q: "stable_ascending a (argsort a)" by (rule argsort_stable_ascending)
  show ?thesis
  proof (rule sorted_wrt_unique [where R = "ranks_before a"])
    show "\<And>x y. ranks_before a x y \<Longrightarrow> \<not> ranks_before a y x"
      by (auto simp: ranks_before_def)
  qed (use p q in \<open>auto simp: stable_ascending_def\<close>)
qed

lemma suffix_closed_upwards:
  assumes "sorted_wrt R p" and "i \<in> set (drop n p)" and "j \<in> set p" and "\<not> R j i"
  shows "j \<in> set (drop n p)"
proof -
  have cross: "\<forall>x \<in> set (take n p). \<forall>y \<in> set (drop n p). R x y"
    using assms(1) sorted_wrt_append [of R "take n p" "drop n p"] by simp
  have "j \<notin> set (take n p)"
  proof
    assume "j \<in> set (take n p)"
    then have "R j i" using cross assms(2) by blast
    then show False using assms(4) by simp
  qed
  then show ?thesis using assms(3) by (metis Un_iff append_take_drop_id set_append)
qed

lemma fit_callable:
  "score_func self = Callable f \<Longrightarrow>
   fit fc fr self (DataFrame Xd) (Series ys) = invoke f self Xd ys"
  by (simp add: fit_def)

lemma fit_unset:
  "score_func self = Unset \<Longrightarrow>
   fit fc fr self (DataFrame Xd) (Series ys) =
     (if nunique ys \<le> 15 then invoke fc (self\<lparr>score_func := Callable fc\<rparr>) Xd ys
      else invoke fr (self\<lparr>score_func := Callable fr\<rparr>) Xd ys)"
  by (simp add: fit_def)

lemma score_func_invoke: "score_func (obj (invoke f self Xd ys)) = score_func self"
  by (simp add: invoke_def store_scores_def Let_def split: sum.splits score_func_ret.splits)

lemma score_func_fit_callable:
  "score_func self = Callable f \<Longrightarrow> score_func (obj (fit fc fr self X y)) = Callable f"
  by (cases X; cases y) (simp_all add: fit_def score_func_invoke)

lemma fit_success:
  assumes "res (fit fc fr self X y) = Inr r"
  shows "\<exists>Xd ys f ret. X = DataFrame Xd \<and> y = Series ys
           \<and> (score_func self = Callable f
                \<or> score_func self = Unset \<and> f = (if nunique ys \<le> 15 then fc else fr))
           \<and> f Xd ys = Inr ret
           \<and> r = store_scores (self\<lparr>score_func := Callable f\<rparr>) ret
           \<and> fit fc fr self X y = \<lparr>res = Inr r, obj = r, calls = [(Xd, ys)]\<rparr>"
proof -
  obtain Xd where X: "X = DataFrame Xd"
    using assms by (cases X) (simp_all add: fit_def)
  obtain ys where y: "y = Series ys"
    using assms X by (cases y) (simp_all add: fit_def)
  show ?thesis
  proof (cases "score_func self")
    case Unset
    define f where "f = (if nunique ys \<le> 15 then fc else fr)"
    have eq: "fit fc fr self X y = invoke f (self\<lparr>score_func := Callable f\<rparr>) Xd ys"
      using Unset by (simp add: X y fit_unset f_def)
    then obtain ret where ret: "f Xd ys = Inr ret"
      using assms by (cases "f Xd ys") (simp_all add: invoke_def)
    then have "fit fc fr self X y =
        \<lparr>res = Inr (store_scores (self\<lparr>score_func := Callable f\<rparr>) ret),
         obj = store_scores (self\<lparr>score_func := Callable f\<rparr>) ret, calls = [(Xd, ys)]\<rparr>"
      using eq by (simp add: invoke_def Let_def)
    then show ?thesis using assms X y Unset ret f_def by auto
  next
    case (Callable f)
    have self: "self\<lparr>score_func := Callable f\<rparr> = self" using Callable by simp
    have eq: "fit fc fr self X y = invoke f self Xd ys"
      using Callable by (simp add: X y fit_callable)
    then obtain ret where ret: "f Xd ys = Inr ret"
      using assms by (cases "f Xd ys") (simp_all add: invoke_def)
    then have "fit fc fr self X y =
        \<lparr>res = Inr (store_scores (self\<lparr>score_func := Callable f\<rparr>) ret),
         obj = store_scores (self\<lparr>score_func := Callable f\<rparr>) ret, calls = [(Xd, ys)]\<rparr>"
      using eq by (simp add: invoke_def Let_def self)
    then show ?thesis using assms X y Callable ret by auto
  next
    case (NotCallable v t)
    then show ?thesis using assms by (simp add: X y fit_def)
  qed
qed

lemma k_store_scores: "k (store_scores self ret) = k self"
  by (cases ret) (simp_all add: store_scores_def)

lemma score_func_same: "score_func s = v \<Longrightarrow> s\<lparr>score_func := v\<rparr> = s"
  by auto

lemma store_scores_forgets:
  "store_scores (self\<lparr>scores := sc, pvalues := pv\<rparr>) ret = store_scores self ret"
  by (cases ret) (simp_all add: store_scores_def)

lemma fit_forgets:
  assumes "res (fit fc fr self X y) = Inr r"
  shows "fit fc fr (self\<lparr>scores := sc, pvalues := pv\<rparr>) X y = fit fc fr self X y"
proof -
  from fit_success [OF assms] obtain Xd ys f ret
    where X: "X = DataFrame Xd" and y: "y = Series ys"
      and f: "score_func self = Callable f
                \<or> score_func self = Unset \<and> f = (if nunique ys \<le> 15 then fc else fr)"
      and ret: "f Xd ys = Inr ret"
      and r: "r = store_scores (self\<lparr>score_func := Callable f\<rparr>) ret"
      and out: "fit fc fr self X y = \<lparr>res = Inr r, obj = r, calls = [(Xd, ys)]\<rparr>"
    by blast
  have swap: "self\<lparr>scores := sc, pvalues := pv, score_func := Callable f\<rparr>
      = self\<lparr>score_func := Callable f, scores := sc, pvalues := pv\<rparr>" by simp
  have "fit fc fr (self\<lparr>scores := sc, pvalues := pv\<rparr>) X y
      = invoke f (self\<lparr>scores := sc, pvalues := pv, score_func := Callable f\<rparr>) Xd ys"
  proof -
    have "?thesis" if c: "score_func self = Callable f"
    proof -
      have e: "self\<lparr>scores := sc, pvalues := pv, score_func := Callable f\<rparr>
          = self\<lparr>scores := sc, pvalues := pv\<rparr>"
        by (rule score_func_same) (simp add: c)
      show ?thesis unfolding e X y by (rule fit_callable) (simp add: c)
    qed
    moreover have "score_func self = Unset \<and> f = (if nunique ys \<le> 15 then fc else fr) \<Longrightarrow> ?thesis"
      by (simp add: X y fit_unset)
    ultimately show ?thesis using f by blast
  qed
  also have "\<dots> = \<lparr>res = Inr r, obj = r, calls = [(Xd, ys)]\<rparr>"
    unfolding swap by (simp add: invoke_def ret r Let_def store_scores_forgets)
  finally show ?thesis using out by simp
qed


lemma suffix_append4: "suffix t (a @ b @ c @ t)"
  by (rule suffixI [of _ "a @ b @ c"]) simp

lemma fit_returns_self: "res (fit fc fr self X y) = Inr r \<Longrightarrow> obj (fit fc fr self X y) = r"
  using fit_success [of fc fr self X y r] by auto

lemma get_mask_zero:
  "k self = 0 \<Longrightarrow> scores self = Some sc \<Longrightarrow> get_mask self = Inr (replicate (length sc) False)"
  by (simp add: get_mask_def zeros_def)

lemma any_replicate_False: "\<not> any (replicate n False)"
  by (simp add: any_def list_ex_iff)

lemma select_all:
  "length cs = n \<Longrightarrow> map fst (filter snd (zip cs (map (\<lambda>j. True) [0..<n]))) = cs"
proof -
  assume n: "length cs = n"
  have "filter snd (zip cs (map (\<lambda>j. True) [0..<n])) = zip cs (map (\<lambda>j. True) [0..<n])"
    by (rule filter_True) (auto dest: set_zip_rightD)
  then show ?thesis using n by simp
qed

lemma fit_failure_keeps:
  assumes "res (fit fc fr self X y) = Inl e"
  shows "scores (obj (fit fc fr self X y)) = scores self \<and> k (obj (fit fc fr self X y)) = k self"
proof (cases X)
  case (DataFrame Xd)
  show ?thesis
  proof (cases y)
    case (Series ys)
    show ?thesis
      using assms
      by (cases "score_func self")
        (auto simp: DataFrame Series fit_def invoke_def Let_def split: sum.splits if_splits)
  qed (simp_all add: DataFrame fit_def)
qed (simp_all add: fit_def)

lemma put_true_no_type_error: "put_true idx msk \<noteq> Inl (TypeError m)"
  by (induction idx arbitrary: msk) auto

lemma get_mask_no_type_error: "get_mask self \<noteq> Inl (TypeError m)"
  by (auto simp: get_mask_def put_true_no_type_error split: option.splits)

lemma transform_no_type_error: "transform self X \<noteq> Inl (TypeError m)"
proof (cases "get_mask self")
  case (Inl e)
  then show ?thesis using get_mask_no_type_error [of self m] by (simp add: transform_def)
next
  case (Inr msk)
  then show ?thesis by (cases X) (simp_all add: transform_def)
qed

lemma get_mask_of_fitted:
  assumes "scores self = Some sc"
  shows "\<exists>msk. get_mask self = Inr msk \<and> length msk = length sc"
proof (cases "k self = 0")
  case True
  then show ?thesis using assms by (simp add: get_mask_zero)
next
  case False
  then show ?thesis using assms by (simp add: get_mask_fitted)
qed

text \<open>
  With \<open>k = 0\<close> and \<open>scores\<close> set, the mask is all false and as long as the scores, and
  \<open>transform\<close> raises the empty-selection ValueError, whatever \<open>X\<close> is.
\<close>

lemma transform_k_zero_fitted:
  assumes zero: "k self = 0" and fitted: "scores self = Some sc"
  shows "get_mask self = Inr (replicate (length sc) False)
     \<and> transform self X = Inl (ValueError no_features_msg)"
  using assms by (simp add: transform_def get_mask_zero any_replicate_False)

section \<open>Claims\<close>

text \<open>
  C1. On a fitted selector with \<open>0 < k \<le> n_features\<close> and a table with as many columns
  as there are scores, \<open>transform\<close> returns a table: it has exactly \<open>k\<close> columns, its
  columns are a subsequence of the columns of \<open>X\<close> (each is a column of \<open>X\<close>, label and
  cells unchanged, in the original relative order), and it has the rows of \<open>X\<close>.
\<close>

theorem transform_selects_k_columns:
  assumes fitted: "scores self = Some sc"
    and compatible: "length (columns d) = length sc"
    and pos: "0 < k self" and le: "k self \<le> int (length sc)"
  shows "\<exists>R. transform self (DataFrame d) = Inr R
           \<and> length (columns R) = nat (k self)
           \<and> subseq (columns R) (columns d)
           \<and> nrows R = nrows d"
proof -
  define idx where "idx = slice_from (- k self) (argsort sc)"
  define msk where "msk = map (\<lambda>j. j \<in> set idx) [0..<length sc]"
  have idx: "idx = drop (length sc - nat (k self)) (argsort sc)"
    using pos by (simp add: idx_def slice_from_neg length_argsort)
  have len: "length idx = nat (k self)"
    using pos le by (simp add: idx length_argsort)
  have dist: "distinct idx"
    by (simp add: idx_def distinct_slice_from distinct_argsort)
  have range: "\<forall>i \<in> set idx. i < length sc"
    using set_slice_from [of "- k self" "argsort sc"] by (auto simp: idx_def set_argsort)
  have "idx \<noteq> []" using len pos by auto
  then obtain i where "i \<in> set idx" by (cases idx) auto
  with range have some: "any msk" by (auto simp: msk_def any_members)
  define R where "R = d\<lparr>columns := map fst (filter snd (zip (columns d) msk))\<rparr>"
  have "transform self (DataFrame d) = Inr R"
    using transform_fitted [OF fitted, of d] pos some compatible
    by (simp add: Let_def idx_def msk_def R_def)
  moreover have "length (columns R) = nat (k self)"
    using iloc_length [OF compatible, of "\<lambda>j. j \<in> set idx"] count_members [OF dist range] len
    by (simp add: R_def msk_def)
  moreover have "subseq (columns R) (columns d)"
    by (simp add: R_def iloc_subseq)
  moreover have "nrows R = nrows d" by (simp add: R_def)
  ultimately show ?thesis by blast
qed

theorem transform_selects_k_columns_witness:
  "transform \<lparr>k = 2, score_func = Unset, scores = Some [5, 3, 5, 1], pvalues = None\<rparr> (DataFrame X4)
     = Inr \<lparr>nrows = 2, columns = [(''a'', [Num 1, Num 2]), (''c'', [Str ''u'', Str ''v''])]\<rparr>
   \<and> (\<exists>R. transform \<lparr>k = 2, score_func = Unset, scores = Some [5, 3, 5, 1], pvalues = None\<rparr> (DataFrame X4) = Inr R
           \<and> length (columns R) = nat 2
           \<and> subseq (columns R) (columns X4)
           \<and> nrows R = nrows X4)"
proof -
  let ?s = "\<lparr>k = 2, score_func = Unset, scores = Some [5, 3, 5, 1], pvalues = None\<rparr>"
  have "transform ?s (DataFrame X4)
     = Inr \<lparr>nrows = 2, columns = [(''a'', [Num 1, Num 2]), (''c'', [Str ''u'', Str ''v''])]\<rparr>"
    by (simp add: transform_def get_mask_def X4_def slice_from_def argsort_def zeros_def any_def upt_rec)
  moreover have "\<exists>R. transform ?s (DataFrame X4) = Inr R
           \<and> length (columns R) = nat (k ?s)
           \<and> subseq (columns R) (columns X4)
           \<and> nrows R = nrows X4"
    by (rule transform_selects_k_columns [of ?s "[5, 3, 5, 1]" X4]) (simp_all add: X4_def)
  ultimately show ?thesis by simp
qed

text \<open>
  C2. On a fitted selector with \<open>k > 0\<close> the mask has one entry per score and is true
  exactly at the last \<open>k\<close> indices of the stable ascending ranking of the scores (which
  \<open>argsort\<close> computes, and which is unique); of two features of equal score, when the
  one of smaller index is selected, so is the one of larger index. For the scores
  \<open>[5, 3, 5, 1]\<close> and \<open>k = 2\<close> the mask is true exactly at the indices 0 and 2.
\<close>

theorem mask_is_top_k_of_stable_sort:
  assumes fitted: "scores self = Some sc" and pos: "0 < k self"
  shows "(\<exists>msk. get_mask self = Inr msk \<and> length msk = length sc
            \<and> (\<forall>p. stable_ascending sc p \<longrightarrow>
                  (\<forall>i < length sc. msk ! i \<longleftrightarrow> i \<in> set (drop (length p - nat (k self)) p)))
            \<and> (\<forall>i j. i < j \<and> j < length sc \<and> sc ! i = sc ! j \<and> msk ! i \<longrightarrow> msk ! j))
         \<and> stable_ascending sc (argsort sc)
         \<and> get_mask \<lparr>k = 2, score_func = sf, scores = Some [5, 3, 5, 1], pvalues = pv\<rparr>
             = Inr [True, False, True, False]"
proof -
  define idx where "idx = drop (length sc - nat (k self)) (argsort sc)"
  define msk where "msk = map (\<lambda>j. j \<in> set idx) [0..<length sc]"
  have sorted: "stable_ascending sc (argsort sc)" by (rule argsort_stable_ascending)
  have mask: "get_mask self = Inr msk"
    using get_mask_fitted [OF _ fitted] pos
    by (simp add: msk_def idx_def slice_from_neg length_argsort)
  have member: "msk ! i \<longleftrightarrow> i \<in> set idx" if "i < length sc" for i
    using that by (simp add: msk_def)
  have top: "\<forall>i < length sc. msk ! i \<longleftrightarrow> i \<in> set (drop (length p - nat (k self)) p)"
    if "stable_ascending sc p" for p
    using stable_ascending_unique [OF that] member by (simp add: idx_def length_argsort)
  have ties: "msk ! j" if "i < j" and "j < length sc" and "sc ! i = sc ! j" and "msk ! i" for i j
  proof -
    have "i \<in> set idx" using that member [of i] by simp
    moreover have "j \<in> set (argsort sc)" using that by (simp add: set_argsort)
    moreover have "\<not> ranks_before sc j i" using that by (simp add: ranks_before_def)
    ultimately have "j \<in> set idx"
      unfolding idx_def using sorted suffix_closed_upwards [of "ranks_before sc" "argsort sc"]
      by (simp add: stable_ascending_def)
    then show ?thesis using that member [of j] by simp
  qed
  have example: "get_mask \<lparr>k = 2, score_func = sf, scores = Some [5, 3, 5, 1], pvalues = pv\<rparr>
      = Inr [True, False, True, False]"
    by (simp add: get_mask_def slice_from_def argsort_def zeros_def upt_rec)
  have "length msk = length sc" by (simp add: msk_def)
  with mask top ties sorted example show ?thesis by blast
qed

theorem mask_is_top_k_of_stable_sort_witness:
  "get_mask \<lparr>k = 1, score_func = Unset, scores = Some [2, 7, 7, 1], pvalues = None\<rparr>
     = Inr [False, False, True, False]
   \<and> stable_ascending [2, 7, 7, 1] [3, 0, 1, 2]"
proof -
  let ?s = "\<lparr>k = 1, score_func = Unset, scores = Some [2, 7, 7, 1], pvalues = None\<rparr>"
  let ?sc = "[2, 7, 7, 1] :: real list"
  have arg: "argsort ?sc = [3, 0, 1, 2]"
    by (simp add: argsort_def upt_rec)
  from mask_is_top_k_of_stable_sort [of ?s ?sc Unset None]
  obtain msk where m: "get_mask ?s = Inr msk" and len: "length msk = length ?sc"
    and top: "\<forall>p. stable_ascending ?sc p \<longrightarrow>
                  (\<forall>i < length ?sc. msk ! i \<longleftrightarrow> i \<in> set (drop (length p - nat 1) p))"
    and st: "stable_ascending ?sc (argsort ?sc)"
    by auto
  from top st arg have "\<forall>i < 4. msk ! i \<longleftrightarrow> i = 2" by simp
  then have "msk ! 0 = False" "msk ! 1 = False" "msk ! 2 = True" "msk ! 3 = False" by auto
  with len have "msk = [False, False, True, False]"
    by (auto simp: list_eq_iff_nth_eq less_Suc_eq numeral_eq_Suc)
  with m st arg show ?thesis by simp
qed

text \<open>
  C3. When \<open>score_func\<close> is unset and \<open>fit\<close> is given a table and a vector, the scoring
  function it invokes and stores in \<open>score_func\<close> is \<open>f_classif\<close> if \<open>y\<close> has at most 15
  distinct values (as \<open>nunique\<close> counts them) and \<open>f_regression\<close> otherwise. Every later
  \<open>fit\<close> keeps that function and invokes it, whatever the new \<open>y\<close>; once \<open>score_func\<close> is
  cleared, the next \<open>fit\<close> resolves it from its own \<open>y\<close>.
\<close>

theorem fit_resolves_score_func:
  assumes unset: "score_func self = Unset"
  shows "let g = (\<lambda>ys. if nunique ys \<le> 15 then fc else fr);
             s1 = obj (fit fc fr self (DataFrame Xd) (Series ys))
         in score_func s1 = Callable (g ys)
            \<and> fit fc fr self (DataFrame Xd) (Series ys)
                = invoke (g ys) (self\<lparr>score_func := Callable (g ys)\<rparr>) Xd ys
            \<and> (\<forall>X' y'. score_func (obj (fit fc fr s1 X' y')) = Callable (g ys))
            \<and> (\<forall>Xd' ys'. fit fc fr s1 (DataFrame Xd') (Series ys') = invoke (g ys) s1 Xd' ys')
            \<and> (\<forall>Xd' ys'. score_func (obj (fit fc fr (s1\<lparr>score_func := Unset\<rparr>)
                                  (DataFrame Xd') (Series ys'))) = Callable (g ys'))"
proof -
  define g where "g = (\<lambda>ys. if nunique ys \<le> 15 then fc else fr)"
  define s1 where "s1 = obj (fit fc fr self (DataFrame Xd) (Series ys))"
  have first: "fit fc fr self (DataFrame Xd) (Series ys)
      = invoke (g ys) (self\<lparr>score_func := Callable (g ys)\<rparr>) Xd ys"
    using unset by (simp add: fit_unset g_def)
  then have stored: "score_func s1 = Callable (g ys)"
    by (simp add: s1_def score_func_invoke)
  have later: "score_func (obj (fit fc fr s1 X' y')) = Callable (g ys)" for X' y'
    using stored by (rule score_func_fit_callable)
  have reuse: "fit fc fr s1 (DataFrame Xd') (Series ys') = invoke (g ys) s1 Xd' ys'" for Xd' ys'
    using stored by (rule fit_callable)
  have cleared: "score_func (obj (fit fc fr (s1\<lparr>score_func := Unset\<rparr>) (DataFrame Xd') (Series ys')))
      = Callable (g ys')" for Xd' ys'
    by (simp add: fit_unset g_def score_func_invoke)
  from stored first later reuse cleared show ?thesis
    unfolding Let_def g_def [symmetric] s1_def [symmetric] by blast
qed

theorem fit_resolves_score_func_witness:
  "score_func (init Unset 2) = Unset
   \<and> nunique y16 = 16
   \<and> score_func (obj (fit scorer_a scorer_b (init Unset 2) (DataFrame X4) (Series y16)))
       = Callable scorer_b
   \<and> scores (obj (fit scorer_a scorer_b (init Unset 2) (DataFrame X4) (Series y16)))
       = Some [1, 2, 3, 4]
   \<and> score_func (obj (fit scorer_a scorer_b
         (obj (fit scorer_a scorer_b (init Unset 2) (DataFrame X4) (Series y16)))
         (DataFrame X4) (Series [Num 0, Num 1, Num 0]))) = Callable scorer_b"
proof -
  have u: "score_func (init Unset 2) = Unset" by (simp add: init_def)
  have n: "nunique y16 = 16" by (simp add: nunique_def y16_def)
  have g: "(if (16::nat) \<le> 15 then scorer_a else scorer_b) = scorer_b" by simp
  let ?o1 = "fit scorer_a scorer_b (init Unset 2) (DataFrame X4) (Series y16)"
  note t = fit_resolves_score_func [OF u, where ys = y16 and fc = scorer_a and fr = scorer_b
      and Xd = X4, unfolded Let_def n g]
  from t have a: "score_func (obj ?o1) = Callable scorer_b" by blast
  from t have b: "?o1 = invoke scorer_b (init Unset 2\<lparr>score_func := Callable scorer_b\<rparr>) X4 y16"
    by blast
  from t have c: "score_func (obj (fit scorer_a scorer_b (obj ?o1) (DataFrame X4)
      (Series [Num 0, Num 1, Num 0]))) = Callable scorer_b" by blast
  have "scores (obj ?o1) = Some [1, 2, 3, 4]"
    unfolding b by (simp add: invoke_def scorer_b_def store_scores_def Let_def)
  with u n a c show ?thesis by simp
qed

text \<open>
  C8. When \<open>X\<close> is not a DataFrame, or \<open>y\<close> is not a Series, or \<open>score_func\<close> is an object
  that is not callable, \<open>fit\<close> raises a TypeError, leaves the selector as it was and has
  not invoked any scoring function. The checks run in this order; the message for \<open>X\<close>
  ends with the expected type \<open>pandas.core.frame.DataFrame\<close>, the one for \<open>y\<close> with
  \<open>pandas.core.series.Series\<close>, and the one for \<open>score_func\<close> holds the value and its type.
\<close>

theorem fit_type_errors:
  "(\<not> is_DataFrame X \<longrightarrow>
      fit fc fr self X y = \<lparr>res = Inl (TypeError dataframe_msg), obj = self, calls = []\<rparr>)
   \<and> (is_DataFrame X \<and> \<not> is_Series y \<longrightarrow>
      fit fc fr self X y = \<lparr>res = Inl (TypeError series_msg), obj = self, calls = []\<rparr>)
   \<and> (is_DataFrame X \<and> is_Series y \<and> score_func self = NotCallable v t \<longrightarrow>
      fit fc fr self X y = \<lparr>res = Inl (TypeError (not_callable_msg v t)), obj = self, calls = []\<rparr>)
   \<and> (\<not> is_DataFrame X \<or> \<not> is_Series y \<or> score_func self = NotCallable v t \<longrightarrow>
      (\<exists>m. fit fc fr self X y = \<lparr>res = Inl (TypeError m), obj = self, calls = []\<rparr>))
   \<and> suffix ''pandas.core.frame.DataFrame'' dataframe_msg
   \<and> suffix ''pandas.core.series.Series'' series_msg
   \<and> not_callable_msg v t =
       ''The score function should be a callable, '' @ v @ '' of type ('' @ t @ '') was passed.''"
proof -
  have X: "fit fc fr self X y = \<lparr>res = Inl (TypeError dataframe_msg), obj = self, calls = []\<rparr>"
    if "\<not> is_DataFrame X"
    using that by (cases X) (simp_all add: fit_def)
  have y: "fit fc fr self X y = \<lparr>res = Inl (TypeError series_msg), obj = self, calls = []\<rparr>"
    if "is_DataFrame X" and "\<not> is_Series y"
    using that by (cases X; cases y) (simp_all add: fit_def)
  have f: "fit fc fr self X y
      = \<lparr>res = Inl (TypeError (not_callable_msg v t)), obj = self, calls = []\<rparr>"
    if "is_DataFrame X" and "is_Series y" and "score_func self = NotCallable v t"
    using that by (cases X; cases y) (simp_all add: fit_def)
  have any: "\<exists>m. fit fc fr self X y = \<lparr>res = Inl (TypeError m), obj = self, calls = []\<rparr>"
    if "\<not> is_DataFrame X \<or> \<not> is_Series y \<or> score_func self = NotCallable v t"
    using that X y f by blast
  have mX: "suffix ''pandas.core.frame.DataFrame'' dataframe_msg"
    unfolding dataframe_msg_def by (rule suffix_append4)
  have my: "suffix ''pandas.core.series.Series'' series_msg"
    unfolding series_msg_def by (rule suffix_append4)
  have mf: "not_callable_msg v t =
       ''The score function should be a callable, '' @ v @ '' of type ('' @ t @ '') was passed.''"
    by (simp add: not_callable_msg_def)
  from X y f any mX my mf show ?thesis by blast
qed

theorem fit_type_errors_witness:
  "fit scorer_a scorer_b (init (NotCallable ''invalid'' ''<class 'str'>'') 2)
       (DataFrame X4) (Series [Num 0, Num 1])
     = \<lparr>res = Inl (TypeError
          ''The score function should be a callable, invalid of type (<class 'str'>) was passed.''),
        obj = init (NotCallable ''invalid'' ''<class 'str'>'') 2, calls = []\<rparr>
   \<and> fit scorer_a scorer_b (init Unset 2) (PyList [[Num 1, Num 2], [Num 3, Num 4]])
       (Series [Num 0, Num 1])
     = \<lparr>res = Inl (TypeError dataframe_msg), obj = init Unset 2, calls = []\<rparr>
   \<and> fit scorer_a scorer_b (init Unset 2) (DataFrame X4) (PyList [[Num 0, Num 1]])
     = \<lparr>res = Inl (TypeError series_msg), obj = init Unset 2, calls = []\<rparr>"
proof -
  let ?bad = "init (NotCallable ''invalid'' ''<class 'str'>'') 2"
  have "fit scorer_a scorer_b ?bad (DataFrame X4) (Series [Num 0, Num 1])
     = \<lparr>res = Inl (TypeError (not_callable_msg ''invalid'' ''<class 'str'>'')),
        obj = ?bad, calls = []\<rparr>"
    using fit_type_errors [of "DataFrame X4" scorer_a scorer_b ?bad "Series [Num 0, Num 1]"
        "''invalid''" "''<class 'str'>''"]
    by (simp add: init_def)
  moreover have "fit scorer_a scorer_b (init Unset 2) (PyList [[Num 1, Num 2], [Num 3, Num 4]])
       (Series [Num 0, Num 1])
     = \<lparr>res = Inl (TypeError dataframe_msg), obj = init Unset 2, calls = []\<rparr>"
    using fit_type_errors [of "PyList [[Num 1, Num 2], [Num 3, Num 4]]" scorer_a scorer_b
        "init Unset 2" "Series [Num 0, Num 1]"]
    by simp
  moreover have "fit scorer_a scorer_b (init Unset 2) (DataFrame X4) (PyList [[Num 0, Num 1]])
     = \<lparr>res = Inl (TypeError series_msg), obj = init Unset 2, calls = []\<rparr>"
    using fit_type_errors [of "DataFrame X4" scorer_a scorer_b "init Unset 2"
        "PyList [[Num 0, Num 1]]"]
    by simp
  ultimately show ?thesis by (simp add: not_callable_msg_def)
qed

text \<open>
  C4. \<open>fit_transform(X, y)\<close> is \<open>fit(X, y)\<close> followed by \<open>transform(X)\<close> on the same
  \<open>X\<close>: the two leave the same selector and make the same invocations; when \<open>fit\<close>
  raises, \<open>fit_transform\<close> raises that error (and \<open>transform\<close> is not reached); when
  \<open>fit\<close> returns, the result is that of \<open>transform\<close> on the selector as \<open>fit\<close> left it,
  its table or its error.
\<close>

theorem fit_transform_is_fit_then_transform:
  "fit_transform fc fr self X y = fit_then_transform fc fr self X y
   \<and> obj (fit_transform fc fr self X y) = obj (fit fc fr self X y)
   \<and> calls (fit_transform fc fr self X y) = calls (fit fc fr self X y)
   \<and> (\<forall>e. res (fit fc fr self X y) = Inl e \<longrightarrow> res (fit_transform fc fr self X y) = Inl e)
   \<and> (\<forall>r. res (fit fc fr self X y) = Inr r \<longrightarrow>
          res (fit_transform fc fr self X y) = transform (obj (fit fc fr self X y)) X)"
proof (cases "res (fit fc fr self X y)")
  case (Inl e)
  then show ?thesis by (simp add: fit_transform_def fit_then_transform_def Let_def)
next
  case (Inr r)
  then show ?thesis
    using fit_returns_self [OF Inr]
    by (simp add: fit_transform_def fit_then_transform_def Let_def)
qed

theorem fit_transform_is_fit_then_transform_witness:
  "res (fit_transform scorer_a scorer_b (init Unset 2) (DataFrame X4) (Series [Num 0, Num 1]))
     = Inr \<lparr>nrows = 2, columns = [(''a'', [Num 1, Num 2]), (''c'', [Str ''u'', Str ''v''])]\<rparr>
   \<and> res (fit_transform scorer_a scorer_b (init Unset 0) (DataFrame X4) (Series [Num 0, Num 1]))
     = Inl (ValueError no_features_msg)
   \<and> res (fit_transform scorer_a scorer_b (init Unset 2) (DataFrame X4) (PyList []))
     = Inl (TypeError series_msg)"
proof -
  let ?y = "Series [Num 0, Num 1]"
  have t: "res (fit scorer_a scorer_b s X y) = Inr r \<Longrightarrow>
      res (fit_transform scorer_a scorer_b s X y) = transform (obj (fit scorer_a scorer_b s X y)) X"
    "res (fit scorer_a scorer_b s X y) = Inl e \<Longrightarrow>
      res (fit_transform scorer_a scorer_b s X y) = Inl e" for s X y r e
    using fit_transform_is_fit_then_transform [of scorer_a scorer_b s X y] by blast+
  have n: "nunique [Num 0, Num 1] \<le> 15" by (simp add: nunique_def)
  have fit2: "fit scorer_a scorer_b (init Unset kk) (DataFrame X4) ?y
      = \<lparr>res = Inr \<lparr>k = kk, score_func = Callable scorer_a, scores = Some [5, 3, 5, 1],
            pvalues = Some [1, 2, 3, 4]\<rparr>,
         obj = \<lparr>k = kk, score_func = Callable scorer_a, scores = Some [5, 3, 5, 1],
            pvalues = Some [1, 2, 3, 4]\<rparr>, calls = [(X4, [Num 0, Num 1])]\<rparr>" for kk
    by (simp add: fit_def n invoke_def store_scores_def scorer_a_def init_def Let_def)
  have "res (fit_transform scorer_a scorer_b (init Unset 2) (DataFrame X4) ?y)
      = transform (obj (fit scorer_a scorer_b (init Unset 2) (DataFrame X4) ?y)) (DataFrame X4)"
    by (rule t(1)) (simp add: fit2)
  also have "\<dots> = Inr \<lparr>nrows = 2, columns = [(''a'', [Num 1, Num 2]), (''c'', [Str ''u'', Str ''v''])]\<rparr>"
    unfolding fit2
    by (simp add: transform_def get_mask_def X4_def slice_from_def argsort_def zeros_def
        any_def upt_rec)
  finally have a: "res (fit_transform scorer_a scorer_b (init Unset 2) (DataFrame X4) ?y)
     = Inr \<lparr>nrows = 2, columns = [(''a'', [Num 1, Num 2]), (''c'', [Str ''u'', Str ''v''])]\<rparr>" .
  have "res (fit_transform scorer_a scorer_b (init Unset 0) (DataFrame X4) ?y)
      = transform (obj (fit scorer_a scorer_b (init Unset 0) (DataFrame X4) ?y)) (DataFrame X4)"
    by (rule t(1)) (simp add: fit2)
  also have "\<dots> = Inl (ValueError no_features_msg)"
    unfolding fit2 by (simp add: transform_def get_mask_def zeros_def any_def)
  finally have b: "res (fit_transform scorer_a scorer_b (init Unset 0) (DataFrame X4) ?y)
     = Inl (ValueError no_features_msg)" .
  have c: "res (fit_transform scorer_a scorer_b (init Unset 2) (DataFrame X4) (PyList []))
     = Inl (TypeError series_msg)"
    by (rule t(2)) (simp add: fit_def)
  from a b c show ?thesis by (intro conjI)
qed

text \<open>
  C9. Of two successive successful calls of \<open>fit\<close>, the second sets \<open>scores\<close> and
  \<open>pvalues\<close> from what the scoring function returns on the second call's arguments:
  \<open>scores\<close> from its scores, \<open>pvalues\<close> from its p-values, or \<open>None\<close> when it returns
  scores only. The second call's outcome is the same whatever \<open>scores\<close> and \<open>pvalues\<close> held
  before it, and the mask afterwards is the mask of a fresh selector with the same \<open>k\<close>
  that has stored the second call's result.
\<close>

theorem refit_overwrites:
  assumes first: "res (fit fc fr s0 X1 y1) = Inr s1"
    and second: "res (fit fc fr s1 X2 y2) = Inr s2"
  shows "\<exists>f Xd ys ret. X2 = DataFrame Xd \<and> y2 = Series ys
           \<and> score_func s1 = Callable f \<and> f Xd ys = Inr ret
           \<and> obj (fit fc fr s1 X2 y2) = s2
           \<and> scores s2 = Some (case ret of Scores sc \<Rightarrow> sc | ScoresPvalues sc pv \<Rightarrow> sc)
           \<and> pvalues s2 = (case ret of Scores sc \<Rightarrow> None | ScoresPvalues sc pv \<Rightarrow> Some pv)
           \<and> (\<forall>sc pv. fit fc fr (s1\<lparr>scores := sc, pvalues := pv\<rparr>) X2 y2 = fit fc fr s1 X2 y2)
           \<and> get_mask s2 = get_mask (store_scores (init (Callable f) (k s0)) ret)"
proof -
  from fit_success [OF first] obtain f1 ret1
    where s1: "s1 = store_scores (s0\<lparr>score_func := Callable f1\<rparr>) ret1" by blast
  have k1: "k s1 = k s0" by (simp add: s1 k_store_scores)
  have callable: "score_func s1 = Callable f1"
    by (cases ret1) (simp_all add: s1 store_scores_def)
  from fit_success [OF second] callable obtain Xd ys ret
    where X: "X2 = DataFrame Xd" and y: "y2 = Series ys" and ret: "f1 Xd ys = Inr ret"
      and s2: "s2 = store_scores (s1\<lparr>score_func := Callable f1\<rparr>) ret"
      and out: "fit fc fr s1 X2 y2 = \<lparr>res = Inr s2, obj = s2, calls = [(Xd, ys)]\<rparr>"
    by auto
  have sc: "scores s2 = Some (case ret of Scores sc \<Rightarrow> sc | ScoresPvalues sc pv \<Rightarrow> sc)"
    by (cases ret) (simp_all add: s2 store_scores_def)
  have pv: "pvalues s2 = (case ret of Scores sc \<Rightarrow> None | ScoresPvalues sc pv \<Rightarrow> Some pv)"
    by (cases ret) (simp_all add: s2 store_scores_def)
  have forget: "\<forall>sc pv. fit fc fr (s1\<lparr>scores := sc, pvalues := pv\<rparr>) X2 y2 = fit fc fr s1 X2 y2"
    using fit_forgets [OF second] by blast
  have msk: "get_mask s2 = get_mask (store_scores (init (Callable f1) (k s0)) ret)"
    using k1 by (cases ret) (simp_all add: s2 store_scores_def get_mask_def init_def)
  have "X2 = DataFrame Xd \<and> y2 = Series ys
           \<and> score_func s1 = Callable f1 \<and> f1 Xd ys = Inr ret
           \<and> obj (fit fc fr s1 X2 y2) = s2
           \<and> scores s2 = Some (case ret of Scores sc \<Rightarrow> sc | ScoresPvalues sc pv \<Rightarrow> sc)
           \<and> pvalues s2 = (case ret of Scores sc \<Rightarrow> None | ScoresPvalues sc pv \<Rightarrow> Some pv)
           \<and> (\<forall>sc pv. fit fc fr (s1\<lparr>scores := sc, pvalues := pv\<rparr>) X2 y2 = fit fc fr s1 X2 y2)
           \<and> get_mask s2 = get_mask (store_scores (init (Callable f1) (k s0)) ret)"
    using X y callable ret sc pv forget msk out by simp
  then show ?thesis by blast
qed

theorem refit_overwrites_witness:
  "res (fit scorer_a scorer_b (init (Callable scorer_a) 2) (DataFrame X4) (Series y16))
     = Inr \<lparr>k = 2, score_func = Callable scorer_a, scores = Some [5, 3, 5, 1],
            pvalues = Some [1, 2, 3, 4]\<rparr>
   \<and> res (fit scorer_a scorer_b
          \<lparr>k = 2, score_func = Callable scorer_a, scores = Some [5, 3, 5, 1],
             pvalues = Some [1, 2, 3, 4]\<rparr>
          (DataFrame X4) (Series y16))
     = Inr \<lparr>k = 2, score_func = Callable scorer_a, scores = Some [5, 3, 5, 1],
            pvalues = Some [1, 2, 3, 4]\<rparr>
   \<and> (\<forall>sc pv. fit scorer_a scorer_b
          \<lparr>k = 2, score_func = Callable scorer_a, scores = sc, pvalues = pv\<rparr>
          (DataFrame X4) (Series y16)
        = fit scorer_a scorer_b
          \<lparr>k = 2, score_func = Callable scorer_a, scores = Some [5, 3, 5, 1],
             pvalues = Some [1, 2, 3, 4]\<rparr>
          (DataFrame X4) (Series y16))"
proof -
  let ?s1 = "\<lparr>k = 2, score_func = Callable scorer_a, scores = Some [5, 3, 5, 1],
            pvalues = Some [1, 2, 3, 4]\<rparr>"
  have a: "res (fit scorer_a scorer_b (init (Callable scorer_a) 2) (DataFrame X4) (Series y16))
     = Inr ?s1"
    by (simp add: fit_def invoke_def store_scores_def scorer_a_def init_def Let_def)
  have b: "res (fit scorer_a scorer_b ?s1 (DataFrame X4) (Series y16)) = Inr ?s1"
    by (simp add: fit_def invoke_def store_scores_def scorer_a_def Let_def)
  from refit_overwrites [OF a b]
  have "\<forall>sc pv. fit scorer_a scorer_b (?s1\<lparr>scores := sc, pvalues := pv\<rparr>)
      (DataFrame X4) (Series y16) = fit scorer_a scorer_b ?s1 (DataFrame X4) (Series y16)"
    by blast
  with a b show ?thesis by simp
qed

text \<open>
  C5, as the code has it. On a fitted selector with at least one score and
  \<open>k \<ge> n_features\<close>, \<open>transform\<close> of a table with \<open>n_features\<close> columns returns that
  table: every column, in the original order, and no error, also when \<open>k\<close> is greater
  than \<open>n_features\<close>.
\<close>

theorem transform_all_columns:
  assumes fitted: "scores self = Some sc"
    and compatible: "length (columns d) = length sc"
    and nonempty: "0 < length sc"
    and ge: "int (length sc) \<le> k self"
  shows "transform self (DataFrame d) = Inr d"
proof -
  have pos: "0 < k self" using nonempty ge by linarith
  have "slice_from (- k self) (argsort sc) = argsort sc"
    using pos ge by (simp add: slice_from_neg length_argsort)
  then have idx: "set (slice_from (- k self) (argsort sc)) = {..<length sc}"
    by (simp add: set_argsort)
  have msk: "map (\<lambda>j. j \<in> set (slice_from (- k self) (argsort sc))) [0..<length sc]
      = map (\<lambda>j. True) [0..<length sc]"
    unfolding idx by (rule map_cong) simp_all
  have some: "any (map (\<lambda>j. True) [0..<length sc])"
    using nonempty by (auto simp: any_def list_ex_iff)
  have "d\<lparr>columns := columns d\<rparr> = d" by simp
  then show ?thesis
    using transform_fitted [OF fitted, of d] pos compatible some
    by (simp add: Let_def msk select_all)
qed

theorem transform_all_columns_witness:
  "transform \<lparr>k = 10, score_func = Unset, scores = Some [5, 3, 5, 1], pvalues = None\<rparr>
     (DataFrame X4) = Inr X4"
  by (rule transform_all_columns [of _ "[5, 3, 5, 1]"]) (simp_all add: X4_def)

text \<open>
  C5 as stated fails when there is no feature at all: a scoring function that returns
  no score for a table without columns leaves a fitted selector; \<open>k = 1 \<ge> 0\<close>, and
  \<open>transform\<close> raises the empty-selection error, since no entry of the mask is true.
\<close>

theorem transform_all_columns_counterexample:
  "scores \<lparr>k = 1, score_func = Callable scorer_empty, scores = Some [], pvalues = None\<rparr> = Some []
   \<and> int (length (columns X0)) \<le> k \<lparr>k = 1, score_func = Callable scorer_empty, scores = Some [], pvalues = None\<rparr>
   \<and> res (fit scorer_a scorer_b (init (Callable scorer_empty) 1) (DataFrame X0) (Series [Num 0, Num 1]))
       = Inr \<lparr>k = 1, score_func = Callable scorer_empty, scores = Some [], pvalues = None\<rparr>
   \<and> transform \<lparr>k = 1, score_func = Callable scorer_empty, scores = Some [], pvalues = None\<rparr>
       (DataFrame X0) = Inl (ValueError no_features_msg)"
  by (simp add: X0_def transform_def get_mask_def slice_from_def argsort_def zeros_def any_def
      fit_def invoke_def scorer_empty_def store_scores_def init_def Let_def)

text \<open>
  C6. On a selector with \<open>k > 0\<close> whose \<open>scores\<close> is \<open>None\<close>, \<open>transform\<close> raises the
  ValueError that asks to fit the estimator first, whatever \<open>X\<close> is; a \<open>fit\<close> that raised
  does not change this.
\<close>

theorem transform_unfitted:
  assumes pos: "0 < k self" and unfitted: "scores self = None"
  shows "transform self X = Inl (ValueError not_fitted_msg)
     \<and> (\<forall>fc fr X' y' e. res (fit fc fr self X' y') = Inl e \<longrightarrow>
           transform (obj (fit fc fr self X' y')) X = Inl (ValueError not_fitted_msg))"
proof -
  have a: "transform s X = Inl (ValueError not_fitted_msg)" if "0 < k s" and "scores s = None" for s
    using that by (simp add: transform_def get_mask_def)
  have "transform (obj (fit fc fr self X' y')) X = Inl (ValueError not_fitted_msg)"
    if "res (fit fc fr self X' y') = Inl e" for fc fr X' y' e
    using fit_failure_keeps [OF that] pos unfitted by (intro a) simp_all
  with a [OF pos unfitted] show ?thesis by blast
qed

theorem transform_unfitted_witness:
  "transform (init Unset 10) (DataFrame X4) = Inl (ValueError not_fitted_msg)
   \<and> transform (init Unset 10) (PyList []) = Inl (ValueError not_fitted_msg)"
proof -
  have "0 < k (init Unset 10)" and "scores (init Unset 10) = None" by (simp_all add: init_def)
  then show ?thesis using transform_unfitted [of "init Unset 10"] by blast
qed

text \<open>
  C7. With \<open>k = 0\<close> every call of \<open>transform\<close> should raise the empty-selection
  ValueError, whatever else the selector holds. On a selector that was never fitted the
  code does not: line 65 reads \<open>self.scores.shape\<close> before line 67 tests \<open>self.scores\<close>
  for \<open>None\<close>, and the call raises an AttributeError. The same selector with \<open>k = 1\<close> or
  \<open>k = -1\<close> reaches the test of line 67 and raises the ValueError written there.
\<close>

theorem transform_k_zero_unfitted:
  "k (init Unset 0) = 0
   \<and> scores (init Unset 0) = None
   \<and> transform (init Unset 0) (DataFrame X4) = Inl (AttributeError ''NoneType'' ''shape'')
   \<and> transform (init Unset 0) (DataFrame X4) \<noteq> Inl (ValueError no_features_msg)
   \<and> transform (init Unset 1) (DataFrame X4) = Inl (ValueError not_fitted_msg)
   \<and> transform (init Unset (- 1)) (DataFrame X4) = Inl (ValueError not_fitted_msg)"
  by (simp add: transform_def get_mask_def init_def)

text \<open>
  C10. On a fitted selector the mask depends on the selector alone, and \<open>transform\<close> of
  a table looks at the table's column count only: it raises the empty-selection error
  when no entry of the mask is true, else the shape error when the column count is not
  the length of the mask, else it returns the columns at the true positions, whatever
  their labels and cells. \<open>transform\<close> never raises a TypeError.
\<close>

theorem transform_checks_only_the_column_count:
  assumes fitted: "scores self = Some sc"
  shows "\<exists>msk. get_mask self = Inr msk \<and> length msk = length sc
     \<and> (\<forall>d. transform self (DataFrame d) =
           (if \<not> any msk then Inl (ValueError no_features_msg)
            else if length msk \<noteq> length (columns d) then Inl (ValueError shape_msg)
            else Inr (d\<lparr>columns := map fst (filter snd (zip (columns d) msk))\<rparr>)))
     \<and> (\<forall>d. any msk \<and> length (columns d) = length msk \<longrightarrow>
           (\<exists>R. transform self (DataFrame d) = Inr R))
     \<and> (\<forall>X m. transform self X \<noteq> Inl (TypeError m))"
proof -
  from get_mask_of_fitted [OF fitted] obtain msk
    where m: "get_mask self = Inr msk" and len: "length msk = length sc" by blast
  have t: "transform self (DataFrame d) =
           (if \<not> any msk then Inl (ValueError no_features_msg)
            else if length msk \<noteq> length (columns d) then Inl (ValueError shape_msg)
            else Inr (d\<lparr>columns := map fst (filter snd (zip (columns d) msk))\<rparr>))" for d
    by (simp add: transform_def m)
  have ok: "\<exists>R. transform self (DataFrame d) = Inr R"
    if "any msk \<and> length (columns d) = length msk" for d
    using that by (simp add: t)
  from m len t ok transform_no_type_error show ?thesis by blast
qed

theorem transform_checks_only_the_column_count_witness:
  "transform \<lparr>k = 2, score_func = Unset, scores = Some [5, 3, 5, 1], pvalues = None\<rparr> (DataFrame Z4)
     = Inr \<lparr>nrows = 1, columns = [(''p'', [Str ''x'']), (''q'', [Num 7])]\<rparr>
   \<and> transform \<lparr>k = 2, score_func = Unset, scores = Some [5, 3, 5, 1], pvalues = None\<rparr> (DataFrame Z3)
     = Inl (ValueError shape_msg)"
proof -
  let ?s = "\<lparr>k = 2, score_func = Unset, scores = Some [5, 3, 5, 1], pvalues = None\<rparr>"
  have g: "get_mask ?s = Inr [True, False, True, False]"
    by (simp add: get_mask_def slice_from_def argsort_def zeros_def upt_rec)
  from transform_checks_only_the_column_count [of ?s "[5, 3, 5, 1]"] g
  have t: "transform ?s (DataFrame d) =
           (if \<not> any [True, False, True, False] then Inl (ValueError no_features_msg)
            else if length [True, False, True, False] \<noteq> length (columns d)
              then Inl (ValueError shape_msg)
            else Inr (d\<lparr>columns := map fst (filter snd (zip (columns d) [True, False, True, False]))\<rparr>))"
    for d by auto
  show ?thesis unfolding t by (simp add: any_def Z4_def Z3_def)
qed

end
